theory Spec2Isabelle
  imports Main "HOL-Library.Word"
begin

section \<open>JavaScript strings\<close>

text \<open>
  A JavaScript string is a sequence of UTF-16 code units; \<open>s.length\<close> counts code units.
\<close>

type_synonym jsstring = "16 word list"

text \<open>
  \<open>String.prototype.trim\<close> strips the ECMAScript WhiteSpace and LineTerminator code points
  from both ends. All of them lie in the Basic Multilingual Plane, so each is one code unit.
\<close>

definition isWhiteSpace :: "16 word \<Rightarrow> bool" where
  "isWhiteSpace c \<longleftrightarrow>
     c = 0x0009 \<or> c = 0x000A \<or> c = 0x000B \<or> c = 0x000C \<or> c = 0x000D \<or> c = 0x0020 \<or>
     c = 0x00A0 \<or> c = 0x1680 \<or> (0x2000 \<le> c \<and> c \<le> 0x200A) \<or> c = 0x2028 \<or> c = 0x2029 \<or>
     c = 0x202F \<or> c = 0x205F \<or> c = 0x3000 \<or> c = 0xFEFF"

definition trim :: "jsstring \<Rightarrow> jsstring" where
  "trim s = rev (dropWhile isWhiteSpace (rev (dropWhile isWhiteSpace s)))"

text \<open>
  An ASCII-only lower-casing, used as a concrete instance of \<open>toLowerCase\<close> when the
  model is evaluated: it agrees with \<open>String.prototype.toLowerCase\<close> on ASCII strings.
\<close>

definition asciiLower :: "16 word \<Rightarrow> 16 word" where
  "asciiLower c = (if 0x41 \<le> c \<and> c \<le> 0x5A then c + 0x20 else c)"

definition asciiLowerCase :: "jsstring \<Rightarrow> jsstring" where
  "asciiLowerCase s = map asciiLower s"

text \<open>ASCII literals as code-unit sequences.\<close>

definition js :: "string \<Rightarrow> jsstring" where
  "js s = map (\<lambda>c. of_nat (of_char c)) s"

section \<open>The rooms store\<close>

text \<open>
  The store keeps \<open>rooms\<close>, a map from room id to room object
  \<open>{ id, name, players, createdAt }\<close>; a player is \<open>{ id, name, joinedAt }\<close>.
  The member sequence \<open>players\<close> is an array in join order.
\<close>

record player =
  player_id :: jsstring
  player_name :: jsstring
  joinedAt :: jsstring

record room =
  room_id :: jsstring
  room_name :: jsstring
  players :: "player list"
  createdAt :: jsstring

type_synonym rooms = "jsstring \<rightharpoonup> room"

datatype store_error = ROOM_NOT_FOUND | NAME_TAKEN

text \<open>
  The store mutates the global map; the model passes the map in and returns it updated.
  Three values come from outside the program and are parameters of the model:
  \<^item> \<open>uuid\<close>, the string \<open>crypto.randomUUID()\<close> returns at this call;
  \<^item> \<open>now\<close>, the string \<open>new Date().toISOString()\<close> returns at this call;
  \<^item> \<open>toLowerCase\<close>, the built-in \<open>String.prototype.toLowerCase\<close> (Unicode case
    conversion, which is not a per-character table).
\<close>

definition createRoom :: "rooms \<Rightarrow> jsstring \<Rightarrow> jsstring \<Rightarrow> jsstring \<Rightarrow> rooms \<times> room" where
  "createRoom rs name uuid now =
     (let room = \<lparr>room_id = uuid, room_name = trim name, players = [], createdAt = now\<rparr>
      in (rs(uuid \<mapsto> room), room))"

text \<open>\<open>getRoom\<close> returns the room or null; null is \<open>None\<close>.\<close>

definition getRoom :: "rooms \<Rightarrow> jsstring \<Rightarrow> room option" where
  "getRoom rs ident = rs ident"

definition addPlayer ::
  "(jsstring \<Rightarrow> jsstring) \<Rightarrow> rooms \<Rightarrow> jsstring \<Rightarrow> jsstring \<Rightarrow> jsstring \<Rightarrow> jsstring
     \<Rightarrow> rooms \<times> (store_error + room \<times> player)" where
  "addPlayer toLowerCase rs roomId playerName uuid now =
     (case getRoom rs roomId of
        None \<Rightarrow> (rs, Inl ROOM_NOT_FOUND)
      | Some room \<Rightarrow>
          (let cleanName = trim playerName;
               nameTaken = list_ex (\<lambda>p. toLowerCase (player_name p) = toLowerCase cleanName)
                             (players room)
           in if nameTaken then (rs, Inl NAME_TAKEN)
              else (let player = \<lparr>player_id = uuid, player_name = cleanName, joinedAt = now\<rparr>;
                        room' = room\<lparr>players := players room @ [player]\<rparr>
                    in (rs(roomId \<mapsto> room'), Inr (room', player)))))"

definition listPlayers :: "rooms \<Rightarrow> jsstring \<Rightarrow> store_error + room \<times> player list" where
  "listPlayers rs roomId =
     (case getRoom rs roomId of
        None \<Rightarrow> Inl ROOM_NOT_FOUND
      | Some room \<Rightarrow> Inr (room, players room))"

definition deleteRoom :: "rooms \<Rightarrow> jsstring \<Rightarrow> rooms \<times> bool" where
  "deleteRoom rs ident = (rs(ident := None), rs ident \<noteq> None)"

definition removePlayer :: "rooms \<Rightarrow> jsstring \<Rightarrow> jsstring \<Rightarrow> rooms \<times> bool" where
  "removePlayer rs roomId playerId =
     (case getRoom rs roomId of
        None \<Rightarrow> (rs, False)
      | Some room \<Rightarrow>
          (let before = length (players room);
               room' = room\<lparr>players := filter (\<lambda>p. player_id p \<noteq> playerId) (players room)\<rparr>
           in (rs(roomId \<mapsto> room'), length (players room') \<noteq> before)))"

subsection \<open>Sequences of store calls\<close>

text \<open>
  A history of the store is a list of calls of its mutating functions, run in order from
  the empty map the module starts with.
\<close>

datatype store_call =
    CreateRoom jsstring jsstring jsstring
  | AddPlayer jsstring jsstring jsstring jsstring
  | RemovePlayer jsstring jsstring
  | DeleteRoom jsstring

fun store_step :: "(jsstring \<Rightarrow> jsstring) \<Rightarrow> rooms \<Rightarrow> store_call \<Rightarrow> rooms" where
  "store_step lc rs (CreateRoom name uuid now) = fst (createRoom rs name uuid now)"
| "store_step lc rs (AddPlayer roomId playerName uuid now) =
     fst (addPlayer lc rs roomId playerName uuid now)"
| "store_step lc rs (RemovePlayer roomId playerId) = fst (removePlayer rs roomId playerId)"
| "store_step lc rs (DeleteRoom ident) = fst (deleteRoom rs ident)"

definition run_calls :: "(jsstring \<Rightarrow> jsstring) \<Rightarrow> rooms \<Rightarrow> store_call list \<Rightarrow> rooms" where
  "run_calls lc rs calls = foldl (store_step lc) rs calls"

text \<open>The two properties of a registry that the store maintains.\<close>

definition names_unique :: "(jsstring \<Rightarrow> jsstring) \<Rightarrow> rooms \<Rightarrow> bool" where
  "names_unique lc rs \<longleftrightarrow>
     (\<forall>r room. rs r = Some room \<longrightarrow> distinct (map (\<lambda>p. lc (player_name p)) (players room)))"

definition names_trimmed :: "rooms \<Rightarrow> bool" where
  "names_trimmed rs \<longleftrightarrow>
     (\<forall>r room. rs r = Some room \<longrightarrow> (\<forall>p \<in> set (players room). trim (player_name p) = player_name p))"

section \<open>Values received from clients\<close>

text \<open>
  A field of a client payload or request body is any JavaScript value. The handlers only
  ask whether it is truthy and whether its \<open>typeof\<close> is \<open>"string"\<close>, so three cases are
  kept: a missing field, a string, and any value that is not a string.
\<close>

datatype jsval = JUndefined | JString jsstring | JOther

section \<open>The realtime gateway\<close>

text \<open>
  Per connection the gateway keeps \<open>socket.data\<close>, whose fields \<open>roomId\<close> and
  \<open>playerId\<close> are set on join and deleted on leave, and the transport keeps the set of
  broadcast groups the socket has joined.
\<close>

record socket_data =
  data_roomId :: "jsstring option"
  data_playerId :: "jsstring option"

record socket =
  sock_data :: socket_data
  sock_groups :: "jsstring set"

record join_payload =
  payload_roomId :: jsval
  payload_playerName :: jsval

text \<open>
  What a handler emits: the event \<open>error { error, details? }\<close>,
  \<open>room:joined { roomId, player }\<close>, \<open>room:players { roomId, players }\<close> or
  \<open>room:left { roomId }\<close>, sent to the handler's own socket (\<open>socket.emit\<close>) or to a
  broadcast group (\<open>io.to(roomId).emit\<close>). The \<open>players\<close> field of \<open>room:players\<close> is
  \<open>None\<close> where the source would send \<open>undefined\<close>.
\<close>

datatype message =
    ErrorMsg string "string option"
  | RoomJoined jsstring player
  | RoomPlayers jsstring "player list option"
  | RoomLeft jsstring

datatype emitted = ToSocket message | ToGroup jsstring message

definition room_join ::
  "(jsstring \<Rightarrow> jsstring) \<Rightarrow> rooms \<Rightarrow> socket \<Rightarrow> join_payload option \<Rightarrow> jsstring \<Rightarrow> jsstring
     \<Rightarrow> rooms \<times> socket \<times> emitted list" where
  "room_join toLowerCase rs sock payload uuid now =
     (let p = (case payload of
                 None \<Rightarrow> \<lparr>payload_roomId = JUndefined, payload_playerName = JUndefined\<rparr>
               | Some q \<Rightarrow> q);
          roomIdRequired = (rs, sock, [ToSocket (ErrorMsg ''Bad Request'' (Some ''roomId required''))]);
          playerNameRequired =
            (rs, sock, [ToSocket (ErrorMsg ''Bad Request'' (Some ''playerName required (min 2 chars)''))])
      in case payload_roomId p of
           JString roomId \<Rightarrow>
             if roomId = [] then roomIdRequired
             else (case payload_playerName p of
                     JString playerName \<Rightarrow>
                       if playerName = [] \<or> length (trim playerName) < 2 then playerNameRequired
                       else (case addPlayer toLowerCase rs roomId playerName uuid now of
                               (rs', Inl ROOM_NOT_FOUND) \<Rightarrow>
                                 (rs', sock, [ToSocket (ErrorMsg ''Room not found'' None)])
                             | (rs', Inl NAME_TAKEN) \<Rightarrow>
                                 (rs', sock, [ToSocket (ErrorMsg ''Name taken'' None)])
                             | (rs', Inr (room, player)) \<Rightarrow>
                                 (let sock' = sock
                                        \<lparr>sock_groups := insert roomId (sock_groups sock),
                                         sock_data := \<lparr>data_roomId = Some roomId,
                                                       data_playerId = Some (player_id player)\<rparr>\<rparr>;
                                      playersResult = listPlayers rs' roomId
                                  in (rs', sock',
                                      [ToSocket (RoomJoined roomId player),
                                       ToGroup roomId
                                         (RoomPlayers roomId
                                            (case playersResult of
                                               Inl e \<Rightarrow> None
                                             | Inr (r, ps) \<Rightarrow> Some ps))])))
                   | _ \<Rightarrow> playerNameRequired)
         | _ \<Rightarrow> roomIdRequired)"

text \<open>
  \<open>if (!roomId || !playerId) return\<close>: a field of \<open>socket.data\<close> is falsy when it is
  absent or the empty string.
\<close>

definition room_leave :: "rooms \<Rightarrow> socket \<Rightarrow> rooms \<times> socket \<times> emitted list" where
  "room_leave rs sock =
     (case (data_roomId (sock_data sock), data_playerId (sock_data sock)) of
        (Some roomId, Some playerId) \<Rightarrow>
          if roomId = [] \<or> playerId = [] then (rs, sock, [])
          else (let rs' = fst (removePlayer rs roomId playerId);
                    sock' = sock
                      \<lparr>sock_groups := sock_groups sock - {roomId},
                       sock_data := \<lparr>data_roomId = None, data_playerId = None\<rparr>\<rparr>;
                    playersResult = listPlayers rs' roomId
                in (rs', sock',
                    (case playersResult of
                       Inl e \<Rightarrow> []
                     | Inr (r, ps) \<Rightarrow> [ToGroup roomId (RoomPlayers roomId (Some ps))])
                    @ [ToSocket (RoomLeft roomId)]))
      | _ \<Rightarrow> (rs, sock, []))"

text \<open>
  The disconnect handler does not touch \<open>socket.data\<close> or the groups: the socket is gone
  (the transport has already taken it out of every group).
\<close>

definition disconnect :: "rooms \<Rightarrow> socket \<Rightarrow> rooms \<times> socket \<times> emitted list" where
  "disconnect rs sock =
     (case (data_roomId (sock_data sock), data_playerId (sock_data sock)) of
        (Some roomId, Some playerId) \<Rightarrow>
          if roomId = [] \<or> playerId = [] then (rs, sock, [])
          else (let rs' = fst (removePlayer rs roomId playerId);
                    playersResult = listPlayers rs' roomId
                in (rs', sock,
                    (case playersResult of
                       Inl e \<Rightarrow> []
                     | Inr (r, ps) \<Rightarrow> [ToGroup roomId (RoomPlayers roomId (Some ps))])))
      | _ \<Rightarrow> (rs, sock, []))"

text \<open>
  What the leave and disconnect handlers broadcast after the removal:
  \<open>listPlayers(roomId)\<close> and, unless it is an error, \<open>room:players\<close> with the list.
\<close>

definition snapshot :: "rooms \<Rightarrow> jsstring \<Rightarrow> emitted list" where
  "snapshot rs roomId =
     (case rs roomId of
        None \<Rightarrow> []
      | Some room \<Rightarrow> [ToGroup roomId (RoomPlayers roomId (Some (players room)))])"

text \<open>A connection holds a binding when both fields of \<open>socket.data\<close> are truthy.\<close>

definition bound :: "socket \<Rightarrow> bool" where
  "bound sock =
     (case (data_roomId (sock_data sock), data_playerId (sock_data sock)) of
        (Some roomId, Some playerId) \<Rightarrow> roomId \<noteq> [] \<and> playerId \<noteq> []
      | _ \<Rightarrow> False)"

section \<open>The HTTP routes that write to the store\<close>

record create_body =
  body_name :: jsval

record join_body =
  body_playerName :: jsval

datatype http_body =
    ErrorBody string "string option"
  | RoomBody room
  | JoinedBody jsstring player

type_synonym response = "nat \<times> http_body"

text \<open>\<open>POST /rooms\<close>.\<close>

definition post_rooms ::
  "rooms \<Rightarrow> create_body option \<Rightarrow> jsstring \<Rightarrow> jsstring \<Rightarrow> rooms \<times> response" where
  "post_rooms rs body uuid now =
     (let name = (case body of None \<Rightarrow> JUndefined | Some b \<Rightarrow> body_name b);
          badRequest =
            (rs, (400, ErrorBody ''Bad Request''
                         (Some ''Field 'name' is required (string, min 2 chars).'')))
      in case name of
           JString n \<Rightarrow>
             if n = [] \<or> length (trim n) < 2 then badRequest
             else (let (rs', room) = createRoom rs n uuid now in (rs', (201, RoomBody room)))
         | _ \<Rightarrow> badRequest)"

text \<open>\<open>POST /rooms/:id/join\<close>.\<close>

definition post_rooms_join ::
  "(jsstring \<Rightarrow> jsstring) \<Rightarrow> rooms \<Rightarrow> jsstring \<Rightarrow> join_body option \<Rightarrow> jsstring \<Rightarrow> jsstring
     \<Rightarrow> rooms \<times> response" where
  "post_rooms_join toLowerCase rs ident body uuid now =
     (let playerName = (case body of None \<Rightarrow> JUndefined | Some b \<Rightarrow> body_playerName b);
          badRequest =
            (rs, (400, ErrorBody ''Bad Request''
                         (Some ''Field 'playerName' is required (string, min 2 chars).'')))
      in case playerName of
           JString n \<Rightarrow>
             if n = [] \<or> length (trim n) < 2 then badRequest
             else (case addPlayer toLowerCase rs ident n uuid now of
                     (rs', Inl ROOM_NOT_FOUND) \<Rightarrow> (rs', (404, ErrorBody ''Room not found'' None))
                   | (rs', Inl NAME_TAKEN) \<Rightarrow>
                       (rs', (409, ErrorBody ''Conflict''
                                     (Some ''Player name already taken in this room.'')))
                   | (rs', Inr (room, player)) \<Rightarrow> (rs', (201, JoinedBody (room_id room) player)))
         | _ \<Rightarrow> badRequest)"

section \<open>Events of one connection\<close>

text \<open>
  The handlers registered on a socket, as one dispatch on the event received. A
  \<open>room:join\<close> carries the client's payload; the id and the timestamp are the ones the
  store draws while handling it.
\<close>

datatype client_event =
    Join "join_payload option" jsstring jsstring
  | Leave
  | Disconnect

fun gateway_step ::
  "(jsstring \<Rightarrow> jsstring) \<Rightarrow> rooms \<Rightarrow> socket \<Rightarrow> client_event \<Rightarrow> rooms \<times> socket \<times> emitted list" where
  "gateway_step lc rs sock (Join payload uuid now) = room_join lc rs sock payload uuid now"
| "gateway_step lc rs sock Leave = room_leave rs sock"
| "gateway_step lc rs sock Disconnect = disconnect rs sock"

section \<open>Example histories\<close>

text \<open>
  A room ``Table A'' with three joins (the second one differing from the first in letter
  case only), a removal and a join under the freed name.
\<close>

definition table_a :: jsstring where
  "table_a = js ''room-1''"

definition table_a_created :: rooms where
  "table_a_created =
     run_calls asciiLowerCase Map.empty [CreateRoom (js ''Table A'') table_a (js ''t0'')]"

definition alice_joined :: rooms where
  "alice_joined =
     run_calls asciiLowerCase table_a_created [AddPlayer table_a (js ''Alice'') (js ''p1'') (js ''t1'')]"

definition table_a_calls :: "store_call list" where
  "table_a_calls =
     [CreateRoom (js ''Table A'') table_a (js ''t0''),
      AddPlayer table_a (js ''Alice'') (js ''p1'') (js ''t1''),
      AddPlayer table_a (js ''alice'') (js ''p2'') (js ''t2''),
      AddPlayer table_a (js '' Bob '') (js ''p3'') (js ''t3''),
      RemovePlayer table_a (js ''p1''),
      AddPlayer table_a (js ''ALICE'') (js ''p4'') (js ''t4'')]"

definition bob :: player where
  "bob = \<lparr>player_id = js ''p3'', player_name = js ''Bob'', joinedAt = js ''t3''\<rparr>"

definition alice :: player where
  "alice = \<lparr>player_id = js ''p1'', player_name = js ''Alice'', joinedAt = js ''t1''\<rparr>"

definition alice_upper :: player where
  "alice_upper = \<lparr>player_id = js ''p4'', player_name = js ''ALICE'', joinedAt = js ''t4''\<rparr>"

definition table_a_room :: "player list \<Rightarrow> room" where
  "table_a_room ps =
     \<lparr>room_id = table_a, room_name = js ''Table A'', players = ps, createdAt = js ''t0''\<rparr>"

text \<open>
  Two rooms and one connection: it joins ``Table A'' as Alice, joins ``Table B'' as Alice
  without leaving, and disconnects.
\<close>

definition table_b :: jsstring where
  "table_b = js ''room-2''"

definition table_b_room :: "player list \<Rightarrow> room" where
  "table_b_room ps =
     \<lparr>room_id = table_b, room_name = js ''Table B'', players = ps, createdAt = js ''t0''\<rparr>"

definition alice_b :: player where
  "alice_b = \<lparr>player_id = js ''p2'', player_name = js ''Alice'', joinedAt = js ''t2''\<rparr>"

definition two_tables :: rooms where
  "two_tables =
     run_calls asciiLowerCase Map.empty
       [CreateRoom (js ''Table A'') table_a (js ''t0''), CreateRoom (js ''Table B'') table_b (js ''t0'')]"

definition idle_socket :: socket where
  "idle_socket = \<lparr>sock_data = \<lparr>data_roomId = None, data_playerId = None\<rparr>, sock_groups = {}\<rparr>"

definition join_as :: "jsstring \<Rightarrow> jsstring \<Rightarrow> join_payload option" where
  "join_as roomId playerName =
     Some \<lparr>payload_roomId = JString roomId, payload_playerName = JString playerName\<rparr>"

definition first_join :: "rooms \<times> socket \<times> emitted list" where
  "first_join =
     room_join asciiLowerCase two_tables idle_socket (join_as table_a (js ''Alice'')) (js ''p1'') (js ''t1'')"

definition second_join :: "rooms \<times> socket \<times> emitted list" where
  "second_join =
     room_join asciiLowerCase (fst first_join) (fst (snd first_join))
       (join_as table_b (js ''Alice'')) (js ''p2'') (js ''t2'')"

definition after_disconnect :: "rooms \<times> socket \<times> emitted list" where
  "after_disconnect = disconnect (fst second_join) (fst (snd second_join))"

text \<open>
  The same connection disconnecting later, after Bob has joined ``Table A'' over HTTP.
\<close>

definition bob_joined_later :: rooms where
  "bob_joined_later =
     fst (post_rooms_join asciiLowerCase (fst second_join) table_a
            (Some \<lparr>body_playerName = JString (js '' Bob '')\<rparr>) (js ''p3'') (js ''t3''))"

definition late_disconnect :: "rooms \<times> socket \<times> emitted list" where
  "late_disconnect = disconnect bob_joined_later (fst (snd second_join))"

text \<open>After the first join: an explicit leave; and a leave once the room has been deleted.\<close>

definition after_leave :: "rooms \<times> socket \<times> emitted list" where
  "after_leave = room_leave (fst first_join) (fst (snd first_join))"

definition table_a_deleted :: rooms where
  "table_a_deleted = fst (deleteRoom (fst first_join) table_a)"

definition leave_deleted :: "rooms \<times> socket \<times> emitted list" where
  "leave_deleted = room_leave table_a_deleted (fst (snd first_join))"

section \<open>Properties of the string operations\<close>

lemma isWhiteSpace_unat:
  "isWhiteSpace c \<longleftrightarrow>
     unat c \<in> {9, 10, 11, 12, 13, 32, 160, 5760, 8232, 8233, 8239, 8287, 12288, 65279} \<union> {8192..8202}"
  unfolding isWhiteSpace_def by (auto simp add: word_le_nat_alt word_unat_eq_iff)

lemma isWhiteSpace_asciiLower: "isWhiteSpace (asciiLower c) = isWhiteSpace c"
proof (cases "0x41 \<le> c \<and> c \<le> 0x5A")
  case True
  then have range: "65 \<le> unat c" "unat c \<le> 90"
    by (simp_all add: word_le_nat_alt)
  then have shifted: "unat (c + 0x20) = unat c + 32"
    by (simp add: unat_add_lem[THEN iffD1])
  have upper: "\<not> isWhiteSpace c"
    using range by (auto simp: isWhiteSpace_unat)
  have "\<not> isWhiteSpace (c + 0x20)"
    unfolding isWhiteSpace_unat shifted using range by auto
  with upper True show ?thesis
    by (simp add: asciiLower_def)
next
  case False
  then show ?thesis
    by (auto simp add: asciiLower_def)
qed

lemma trim_map:
  assumes "\<And>c. isWhiteSpace (f c) = isWhiteSpace c"
  shows "trim (map f s) = map f (trim s)"
  unfolding trim_def using assms by (simp add: dropWhile_map rev_map comp_def)

lemma trim_asciiLowerCase: "trim (asciiLowerCase s) = asciiLowerCase (trim s)"
  unfolding asciiLowerCase_def by (rule trim_map) (rule isWhiteSpace_asciiLower)

lemma dropWhile_rev_dropWhile:
  "dropWhile P (rev (dropWhile P (rev (dropWhile P s)))) = rev (dropWhile P (rev (dropWhile P s)))"
proof -
  define t where "t = dropWhile P s"
  have t: "t = [] \<or> \<not> P (hd t)"
    unfolding t_def using hd_dropWhile[of P s] by blast
  have "rev (dropWhile P (rev t)) = [] \<or> \<not> P (hd (rev (dropWhile P (rev t))))"
  proof (cases "dropWhile P (rev t) = []")
    case True then show ?thesis by simp
  next
    case False
    then have "t \<noteq> []" by auto
    define w where "w = dropWhile P (rev t)"
    have "rev t = takeWhile P (rev t) @ w"
      unfolding w_def by simp
    then have "rev (rev t) = rev w @ rev (takeWhile P (rev t))"
      by (metis rev_append)
    then have split: "t = rev w @ rev (takeWhile P (rev t))"
      by (simp only: rev_rev_ident)
    from False have "rev w \<noteq> []"
      unfolding w_def by simp
    then have "hd (rev w @ rev (takeWhile P (rev t))) = hd (rev w)"
      by (rule hd_append2)
    with split have "hd (rev w) = hd t"
      by simp
    with t \<open>t \<noteq> []\<close> show ?thesis
      unfolding w_def by simp
  qed
  then show ?thesis
    unfolding t_def by (simp add: dropWhile_eq_self_iff)
qed

lemma trim_trim: "trim (trim s) = trim s"
  unfolding trim_def by (simp add: dropWhile_rev_dropWhile)

section \<open>Invariants of the store\<close>

lemma names_unique_empty: "names_unique lc Map.empty"
  by (simp add: names_unique_def)

lemma names_trimmed_empty: "names_trimmed Map.empty"
  by (simp add: names_trimmed_def)

lemma addPlayer_cases:
  "addPlayer lc rs roomId playerName uuid now =
     (case rs roomId of
        None \<Rightarrow> (rs, Inl ROOM_NOT_FOUND)
      | Some room \<Rightarrow>
          if lc (trim playerName) \<in> (\<lambda>p. lc (player_name p)) ` set (players room)
          then (rs, Inl NAME_TAKEN)
          else (rs(roomId \<mapsto> room\<lparr>players := players room @
                   [\<lparr>player_id = uuid, player_name = trim playerName, joinedAt = now\<rparr>]\<rparr>),
                Inr (room\<lparr>players := players room @
                   [\<lparr>player_id = uuid, player_name = trim playerName, joinedAt = now\<rparr>]\<rparr>,
                   \<lparr>player_id = uuid, player_name = trim playerName, joinedAt = now\<rparr>)))"
proof -
  have taken: "list_ex (\<lambda>p. lc (player_name p) = lc (trim playerName)) ps \<longleftrightarrow>
                 lc (trim playerName) \<in> (\<lambda>p. lc (player_name p)) ` set ps"
    for ps :: "player list"
    unfolding list_ex_iff image_iff by (rule bex_cong) auto
  show ?thesis
    by (simp add: addPlayer_def getRoom_def taken Let_def split: option.splits)
qed

lemma removePlayer_fst:
  "fst (removePlayer rs roomId playerId) =
     (case rs roomId of
        None \<Rightarrow> rs
      | Some room \<Rightarrow> rs(roomId \<mapsto> room\<lparr>players := filter (\<lambda>p. player_id p \<noteq> playerId) (players room)\<rparr>))"
  by (simp add: removePlayer_def getRoom_def Let_def split: option.splits)

lemma names_unique_step: "names_unique lc rs \<Longrightarrow> names_unique lc (store_step lc rs c)"
proof (cases c)
  case (CreateRoom name uuid now)
  assume "names_unique lc rs"
  then show ?thesis
    unfolding CreateRoom by (simp add: names_unique_def createRoom_def Let_def)
next
  case (AddPlayer roomId playerName uuid now)
  assume "names_unique lc rs"
  then show ?thesis
    unfolding AddPlayer
    by (auto simp add: names_unique_def addPlayer_cases split: option.splits if_splits)
next
  case (RemovePlayer roomId playerId)
  assume "names_unique lc rs"
  then show ?thesis
    unfolding RemovePlayer
    by (auto simp add: names_unique_def removePlayer_fst distinct_map_filter split: option.splits if_splits)
next
  case (DeleteRoom ident)
  assume "names_unique lc rs"
  then show ?thesis
    unfolding DeleteRoom by (simp add: names_unique_def deleteRoom_def)
qed

lemma names_trimmed_step: "names_trimmed rs \<Longrightarrow> names_trimmed (store_step lc rs c)"
proof (cases c)
  case (CreateRoom name uuid now)
  assume "names_trimmed rs"
  then show ?thesis
    unfolding CreateRoom by (simp add: names_trimmed_def createRoom_def Let_def)
next
  case (AddPlayer roomId playerName uuid now)
  assume "names_trimmed rs"
  then show ?thesis
    unfolding AddPlayer
    by (auto simp add: names_trimmed_def addPlayer_cases trim_trim split: option.splits if_splits)
next
  case (RemovePlayer roomId playerId)
  assume "names_trimmed rs"
  then show ?thesis
    unfolding RemovePlayer
    by (auto simp add: names_trimmed_def removePlayer_fst split: option.splits if_splits)
next
  case (DeleteRoom ident)
  assume "names_trimmed rs"
  then show ?thesis
    unfolding DeleteRoom by (simp add: names_trimmed_def deleteRoom_def)
qed

lemma names_unique_run: "names_unique lc rs \<Longrightarrow> names_unique lc (run_calls lc rs calls)"
  unfolding run_calls_def
  by (induction calls arbitrary: rs) (simp_all add: names_unique_step)

lemma names_trimmed_run: "names_trimmed rs \<Longrightarrow> names_trimmed (run_calls lc rs calls)"
  unfolding run_calls_def
  by (induction calls arbitrary: rs) (simp_all add: names_trimmed_step)

section \<open>Evaluating the example histories\<close>

lemmas eval_defs = run_calls_def createRoom_def addPlayer_def removePlayer_def deleteRoom_def
  getRoom_def listPlayers_def trim_def isWhiteSpace_def js_def asciiLowerCase_def asciiLower_def
  Let_def table_a_def table_a_created_def alice_joined_def table_a_calls_def bob_def alice_def
  alice_upper_def table_a_room_def

lemma table_a_created_eq: "table_a_created = [table_a \<mapsto> table_a_room []]"
  by (simp add: eval_defs)

lemma alice_joined_eq: "alice_joined = [table_a \<mapsto> table_a_room [alice]]"
  by (simp add: eval_defs)

lemma table_a_calls_eq:
  "run_calls asciiLowerCase Map.empty table_a_calls = [table_a \<mapsto> table_a_room [bob, alice_upper]]"
  by (simp add: eval_defs)

section \<open>The store's operations\<close>

text \<open>
  C1. In every room of a registry reached from the empty one by any sequence of store
  calls (room creations and deletions, \<open>addPlayer\<close>, \<open>removePlayer\<close>), two members at
  different positions of the member sequence have names that differ under
  case-insensitive comparison.
\<close>

theorem C1_names_unique:
  assumes "run_calls lc Map.empty calls roomId = Some room"
    and "i < length (players room)" and "j < length (players room)" and "i \<noteq> j"
  shows "lc (player_name (players room ! i)) \<noteq> lc (player_name (players room ! j))"
proof -
  have "names_unique lc (run_calls lc Map.empty calls)"
    by (rule names_unique_run) (rule names_unique_empty)
  with assms(1) have "distinct (map (\<lambda>p. lc (player_name p)) (players room))"
    unfolding names_unique_def by blast
  with assms(2-4) show ?thesis
    by (auto simp add: distinct_conv_nth)
qed

theorem C1_names_unique_witness:
  "run_calls asciiLowerCase Map.empty table_a_calls table_a = Some (table_a_room [bob, alice_upper]) \<and>
   asciiLowerCase (player_name (players (table_a_room [bob, alice_upper]) ! 0)) \<noteq>
   asciiLowerCase (player_name (players (table_a_room [bob, alice_upper]) ! 1))"
proof -
  have run: "run_calls asciiLowerCase Map.empty table_a_calls table_a = Some (table_a_room [bob, alice_upper])"
    by (simp add: table_a_calls_eq)
  have "asciiLowerCase (player_name (players (table_a_room [bob, alice_upper]) ! 0)) \<noteq>
        asciiLowerCase (player_name (players (table_a_room [bob, alice_upper]) ! 1))"
    by (rule C1_names_unique [OF run]) (simp_all add: table_a_room_def)
  with run show ?thesis
    by simp
qed

text \<open>
  C2. When the room exists and no member's name equals the trimmed input under
  case-insensitive comparison, \<open>addPlayer\<close> succeeds: it returns the new player, whose
  name is the trimmed input, and the room's member sequence is the old one with the new
  player appended at the end.
\<close>

theorem C2_addPlayer_appends:
  assumes "rs roomId = Some room"
    and "\<forall>p \<in> set (players room). lc (player_name p) \<noteq> lc (trim name)"
  shows "addPlayer lc rs roomId name uuid now =
           (rs(roomId \<mapsto> room\<lparr>players := players room @
                 [\<lparr>player_id = uuid, player_name = trim name, joinedAt = now\<rparr>]\<rparr>),
            Inr (room\<lparr>players := players room @
                   [\<lparr>player_id = uuid, player_name = trim name, joinedAt = now\<rparr>]\<rparr>,
                 \<lparr>player_id = uuid, player_name = trim name, joinedAt = now\<rparr>))"
  using assms by (auto simp add: addPlayer_cases)

theorem C2_addPlayer_appends_witness:
  "alice_joined table_a = Some (table_a_room [alice]) \<and>
   players (table_a_room [alice]) = [alice] \<and>
   asciiLowerCase (player_name alice) \<noteq> asciiLowerCase (trim (js '' Bob '')) \<and>
   addPlayer asciiLowerCase alice_joined table_a (js '' Bob '') (js ''p3'') (js ''t3'') =
     ([table_a \<mapsto> table_a_room [alice, bob]], Inr (table_a_room [alice, bob], bob))"
proof -
  have room: "alice_joined table_a = Some (table_a_room [alice])"
    by (simp add: alice_joined_eq)
  have unused: "\<forall>p \<in> set (players (table_a_room [alice])).
      asciiLowerCase (player_name p) \<noteq> asciiLowerCase (trim (js '' Bob ''))"
    by (simp add: eval_defs)
  have bob: "trim (js '' Bob '') = js ''Bob''"
    by (simp add: eval_defs)
  from C2_addPlayer_appends [where rs = alice_joined and roomId = table_a and lc = asciiLowerCase
      and uuid = "js ''p3''" and now = "js ''t3''", OF room unused]
  have "addPlayer asciiLowerCase alice_joined table_a (js '' Bob '') (js ''p3'') (js ''t3'') =
     ([table_a \<mapsto> table_a_room [alice, bob]], Inr (table_a_room [alice, bob], bob))"
    by (auto simp add: bob alice_joined_eq table_a_room_def bob_def)
  moreover have "players (table_a_room [alice]) = [alice]"
    by (simp add: table_a_room_def)
  moreover have "asciiLowerCase (player_name alice) \<noteq> asciiLowerCase (trim (js '' Bob ''))"
    by (simp add: eval_defs)
  ultimately show ?thesis
    using room by blast
qed

text \<open>
  C3. In a registry reached by store calls, a name that differs only in letter case from
  the name of a member of the room (the two are equal after \<open>toLowerCase\<close>) is rejected
  with \<open>NAME_TAKEN\<close> and the registry, hence the room's member sequence, is returned
  unchanged. Case conversion is taken to leave leading and trailing white space alone.
\<close>

theorem C3_name_taken:
  assumes "\<forall>s. trim (lc s) = lc (trim s)"
    and "rs = run_calls lc Map.empty calls"
    and "rs roomId = Some room"
    and "p \<in> set (players room)"
    and "lc name = lc (player_name p)"
  shows "addPlayer lc rs roomId name uuid now = (rs, Inl NAME_TAKEN)"
proof -
  have "names_trimmed rs"
    unfolding assms(2) by (rule names_trimmed_run) (rule names_trimmed_empty)
  with assms(3,4) have "trim (player_name p) = player_name p"
    unfolding names_trimmed_def by blast
  then have "lc (player_name p) = lc (trim (player_name p))"
    by simp
  also have "\<dots> = trim (lc (player_name p))"
    using assms(1) by simp
  also have "\<dots> = trim (lc name)"
    using assms(5) by simp
  also have "\<dots> = lc (trim name)"
    using assms(1) by simp
  finally have "lc (trim name) \<in> (\<lambda>p. lc (player_name p)) ` set (players room)"
    using assms(4) by (metis imageI)
  with assms(3) show ?thesis
    by (simp add: addPlayer_cases)
qed

theorem C3_name_taken_witness:
  "(\<forall>s. trim (asciiLowerCase s) = asciiLowerCase (trim s)) \<and>
   alice_joined = run_calls asciiLowerCase Map.empty (take 2 table_a_calls) \<and>
   alice_joined table_a = Some (table_a_room [alice]) \<and>
   alice \<in> set (players (table_a_room [alice])) \<and>
   asciiLowerCase (js ''alice'') = asciiLowerCase (player_name alice) \<and>
   addPlayer asciiLowerCase alice_joined table_a (js ''alice'') (js ''p2'') (js ''t2'') =
     (alice_joined, Inl NAME_TAKEN) \<and>
   map_option (\<lambda>r. map player_name (players r)) (alice_joined table_a) = Some [js ''Alice'']"
proof -
  have commute: "\<forall>s. trim (asciiLowerCase s) = asciiLowerCase (trim s)"
    by (simp add: trim_asciiLowerCase)
  have history: "alice_joined = run_calls asciiLowerCase Map.empty (take 2 table_a_calls)"
    by (simp add: alice_joined_def table_a_created_def table_a_calls_def run_calls_def)
  have room: "alice_joined table_a = Some (table_a_room [alice])"
    by (simp add: alice_joined_eq)
  have member: "alice \<in> set (players (table_a_room [alice]))"
    by (simp add: table_a_room_def)
  have same: "asciiLowerCase (js ''alice'') = asciiLowerCase (player_name alice)"
    by (simp add: eval_defs)
  have names: "map_option (\<lambda>r. map player_name (players r)) (alice_joined table_a) = Some [js ''Alice'']"
    by (simp add: alice_joined_eq table_a_room_def alice_def)
  from C3_name_taken [where rs = alice_joined and roomId = table_a and uuid = "js ''p2''"
      and now = "js ''t2''", OF commute history room member same]
  have "addPlayer asciiLowerCase alice_joined table_a (js ''alice'') (js ''p2'') (js ''t2'') =
     (alice_joined, Inl NAME_TAKEN)" .
  with commute history room member same names show ?thesis
    by blast
qed

lemma removePlayer_unknown_room: "rs roomId = None \<Longrightarrow> removePlayer rs roomId playerId = (rs, False)"
  by (simp add: removePlayer_def getRoom_def)

lemma filter_length_eq_iff: "length (filter P xs) = length xs \<longleftrightarrow> filter P xs = xs"
  by (metis filter_True length_filter_less less_irrefl)

lemma removePlayer_snd:
  "snd (removePlayer rs roomId playerId) \<longleftrightarrow>
     (\<exists>room. rs roomId = Some room \<and> playerId \<in> player_id ` set (players room))"
  by (auto simp add: removePlayer_def getRoom_def Let_def filter_length_eq_iff filter_id_conv
      split: option.splits)

lemma removePlayer_absent:
  assumes "rs roomId = Some room" and "playerId \<notin> player_id ` set (players room)"
  shows "removePlayer rs roomId playerId = (rs, False)"
proof -
  from assms(2) have same: "filter (\<lambda>p. player_id p \<noteq> playerId) (players room) = players room"
    by (auto simp add: filter_id_conv)
  then have "rs(roomId \<mapsto> room\<lparr>players := filter (\<lambda>p. player_id p \<noteq> playerId) (players room)\<rparr>) = rs"
    using assms(1) by (simp add: map_upd_triv)
  with same assms(1) show ?thesis
    by (simp add: removePlayer_def getRoom_def Let_def)
qed

text \<open>
  C4. \<open>removePlayer\<close> returns true exactly when the room exists and holds a member with
  the given id, and then the member sequence gets shorter; for an unknown room or an id
  that is not in the room it returns false (it has no error result) and the registry is
  unchanged; a second call with the same arguments returns false and changes nothing.
\<close>

theorem C4_removePlayer:
  "(snd (removePlayer rs roomId playerId) \<longleftrightarrow>
      (\<exists>room. rs roomId = Some room \<and> playerId \<in> player_id ` set (players room))) \<and>
   (snd (removePlayer rs roomId playerId) \<longrightarrow>
      (\<exists>room room'. rs roomId = Some room \<and> fst (removePlayer rs roomId playerId) roomId = Some room' \<and>
         players room' = filter (\<lambda>p. player_id p \<noteq> playerId) (players room) \<and>
         length (players room') < length (players room))) \<and>
   (rs roomId = None \<or> (\<exists>room. rs roomId = Some room \<and> playerId \<notin> player_id ` set (players room)) \<longrightarrow>
      removePlayer rs roomId playerId = (rs, False)) \<and>
   (\<not> snd (removePlayer rs roomId playerId) \<longrightarrow> fst (removePlayer rs roomId playerId) = rs) \<and>
   removePlayer (fst (removePlayer rs roomId playerId)) roomId playerId =
     (fst (removePlayer rs roomId playerId), False)"
proof (intro conjI)
  show "snd (removePlayer rs roomId playerId) \<longleftrightarrow>
      (\<exists>room. rs roomId = Some room \<and> playerId \<in> player_id ` set (players room))"
    by (rule removePlayer_snd)
next
  show "snd (removePlayer rs roomId playerId) \<longrightarrow>
      (\<exists>room room'. rs roomId = Some room \<and> fst (removePlayer rs roomId playerId) roomId = Some room' \<and>
         players room' = filter (\<lambda>p. player_id p \<noteq> playerId) (players room) \<and>
         length (players room') < length (players room))"
    by (auto simp add: removePlayer_def getRoom_def Let_def le_neq_implies_less split: option.splits)
next
  show unchanged: "rs roomId = None \<or> (\<exists>room. rs roomId = Some room \<and> playerId \<notin> player_id ` set (players room)) \<longrightarrow>
      removePlayer rs roomId playerId = (rs, False)"
    using removePlayer_unknown_room removePlayer_absent by blast
next
  show "\<not> snd (removePlayer rs roomId playerId) \<longrightarrow> fst (removePlayer rs roomId playerId) = rs"
  proof
    assume "\<not> snd (removePlayer rs roomId playerId)"
    then have "rs roomId = None \<or> (\<exists>room. rs roomId = Some room \<and> playerId \<notin> player_id ` set (players room))"
      unfolding removePlayer_snd by (cases "rs roomId") auto
    then have "removePlayer rs roomId playerId = (rs, False)"
      using removePlayer_unknown_room removePlayer_absent by blast
    then show "fst (removePlayer rs roomId playerId) = rs"
      by simp
  qed
next
  show "removePlayer (fst (removePlayer rs roomId playerId)) roomId playerId =
     (fst (removePlayer rs roomId playerId), False)"
  proof (cases "rs roomId")
    case None
    then show ?thesis
      by (simp add: removePlayer_unknown_room)
  next
    case (Some room)
    let ?room' = "room\<lparr>players := filter (\<lambda>p. player_id p \<noteq> playerId) (players room)\<rparr>"
    have first: "fst (removePlayer rs roomId playerId) = rs(roomId \<mapsto> ?room')"
      using Some by (simp add: removePlayer_fst)
    have "removePlayer (rs(roomId \<mapsto> ?room')) roomId playerId = (rs(roomId \<mapsto> ?room'), False)"
      by (rule removePlayer_absent [where room = ?room']) auto
    with first show ?thesis
      by simp
  qed
qed

theorem C4_removePlayer_witness:
  "snd (removePlayer alice_joined table_a (js ''p1'')) \<and>
   fst (removePlayer alice_joined table_a (js ''p1'')) = table_a_created \<and>
   removePlayer table_a_created table_a (js ''p1'') = (table_a_created, False) \<and>
   removePlayer alice_joined (js ''room-9'') (js ''p1'') = (alice_joined, False) \<and>
   removePlayer alice_joined table_a (js ''p7'') = (alice_joined, False)"
proof -
  have removed: "removePlayer alice_joined table_a (js ''p1'') = (table_a_created, True)"
    by (simp add: alice_joined_eq table_a_created_eq)
       (simp add: removePlayer_def getRoom_def Let_def table_a_room_def alice_def js_def)
  have no_room: "alice_joined (js ''room-9'') = None"
    by (simp add: alice_joined_eq) (simp add: table_a_def js_def)
  have no_player: "\<exists>room. alice_joined table_a = Some room \<and> js ''p7'' \<notin> player_id ` set (players room)"
    by (simp add: alice_joined_eq table_a_room_def alice_def) (simp add: js_def)
  from C4_removePlayer [of alice_joined table_a "js ''p1''"] removed
  have again: "removePlayer table_a_created table_a (js ''p1'') = (table_a_created, False)"
    by simp
  from C4_removePlayer [of alice_joined "js ''room-9''" "js ''p1''"] no_room
  have unknown_room: "removePlayer alice_joined (js ''room-9'') (js ''p1'') = (alice_joined, False)"
    by blast
  from C4_removePlayer [of alice_joined table_a "js ''p7''"] no_player
  have unknown_player: "removePlayer alice_joined table_a (js ''p7'') = (alice_joined, False)"
    by blast
  from removed again unknown_room unknown_player show ?thesis
    by simp
qed

section \<open>The gateway's handlers\<close>

lemmas gateway_defs = room_join_def room_leave_def disconnect_def two_tables_def idle_socket_def
  join_as_def table_b_def table_b_room_def alice_b_def

lemma two_tables_eq: "two_tables = [table_a \<mapsto> table_a_room [], table_b \<mapsto> table_b_room []]"
  by (simp add: eval_defs gateway_defs)

lemma tables_differ: "table_a \<noteq> table_b"
  by (simp add: table_a_def table_b_def js_def)

lemma first_join_eq:
  "first_join =
     (two_tables(table_a \<mapsto> table_a_room [alice]),
      \<lparr>sock_data = \<lparr>data_roomId = Some table_a, data_playerId = Some (js ''p1'')\<rparr>,
        sock_groups = {table_a}\<rparr>,
      [ToSocket (RoomJoined table_a alice), ToGroup table_a (RoomPlayers table_a (Some [alice]))])"
  unfolding first_join_def two_tables_eq
  by (simp add: eval_defs gateway_defs)

lemma second_join_eq:
  "second_join =
     (two_tables(table_a \<mapsto> table_a_room [alice], table_b \<mapsto> table_b_room [alice_b]),
      \<lparr>sock_data = \<lparr>data_roomId = Some table_b, data_playerId = Some (js ''p2'')\<rparr>,
        sock_groups = {table_a, table_b}\<rparr>,
      [ToSocket (RoomJoined table_b alice_b), ToGroup table_b (RoomPlayers table_b (Some [alice_b]))])"
  unfolding second_join_def first_join_eq two_tables_eq
  by (simp add: eval_defs gateway_defs insert_commute)

lemma after_disconnect_eq:
  "after_disconnect =
     (two_tables(table_a \<mapsto> table_a_room [alice], table_b \<mapsto> table_b_room []),
      \<lparr>sock_data = \<lparr>data_roomId = Some table_b, data_playerId = Some (js ''p2'')\<rparr>,
        sock_groups = {table_a, table_b}\<rparr>,
      [ToGroup table_b (RoomPlayers table_b (Some []))])"
  unfolding after_disconnect_def second_join_eq two_tables_eq
  by (simp add: eval_defs gateway_defs)

lemma bob_joined_later_eq:
  "bob_joined_later =
     two_tables(table_a \<mapsto> table_a_room [alice, bob], table_b \<mapsto> table_b_room [alice_b])"
  unfolding bob_joined_later_def second_join_eq two_tables_eq
  by (simp add: eval_defs gateway_defs post_rooms_join_def fun_upd_twist)

lemma late_disconnect_eq:
  "fst late_disconnect =
     two_tables(table_a \<mapsto> table_a_room [alice, bob], table_b \<mapsto> table_b_room [])"
  unfolding late_disconnect_def bob_joined_later_eq second_join_eq two_tables_eq
  by (simp add: eval_defs gateway_defs)

lemma after_leave_eq:
  "after_leave =
     (two_tables(table_a \<mapsto> table_a_room []),
      \<lparr>sock_data = \<lparr>data_roomId = None, data_playerId = None\<rparr>, sock_groups = {}\<rparr>,
      [ToGroup table_a (RoomPlayers table_a (Some [])), ToSocket (RoomLeft table_a)])"
  unfolding after_leave_def first_join_eq two_tables_eq
  by (simp add: eval_defs gateway_defs)

lemma table_a_deleted_eq: "table_a_deleted = [table_b \<mapsto> table_b_room []]"
  unfolding table_a_deleted_def first_join_eq two_tables_eq
  by (simp add: eval_defs gateway_defs)

lemma leave_deleted_eq:
  "leave_deleted =
     ([table_b \<mapsto> table_b_room []],
      \<lparr>sock_data = \<lparr>data_roomId = None, data_playerId = None\<rparr>, sock_groups = {}\<rparr>,
      [ToSocket (RoomLeft table_a)])"
  unfolding leave_deleted_def table_a_deleted_eq first_join_eq
  by (simp add: eval_defs gateway_defs)

lemma room_join_joined:
  assumes "room_join lc rs sock payload uuid now = (rs', sock', out)"
    and "ToSocket (RoomJoined roomId player) \<in> set out"
  shows "\<exists>q name room.
           payload = Some q \<and> payload_roomId q = JString roomId \<and>
           payload_playerName q = JString name \<and> roomId \<noteq> [] \<and> 2 \<le> length (trim name) \<and>
           rs roomId = Some room \<and>
           lc (trim name) \<notin> (\<lambda>p. lc (player_name p)) ` set (players room) \<and>
           player = \<lparr>player_id = uuid, player_name = trim name, joinedAt = now\<rparr> \<and>
           rs' = rs(roomId \<mapsto> room\<lparr>players := players room @ [player]\<rparr>) \<and>
           sock' = sock\<lparr>sock_groups := insert roomId (sock_groups sock),
                         sock_data := \<lparr>data_roomId = Some roomId, data_playerId = Some uuid\<rparr>\<rparr> \<and>
           out = [ToSocket (RoomJoined roomId player),
                  ToGroup roomId (RoomPlayers roomId (Some (players room @ [player])))]"
  using assms
  by (auto simp add: room_join_def addPlayer_cases listPlayers_def getRoom_def Let_def
      split: option.splits jsval.splits if_splits)

lemma bound_iff:
  "bound sock \<longleftrightarrow>
     (\<exists>roomId playerId. data_roomId (sock_data sock) = Some roomId \<and>
        data_playerId (sock_data sock) = Some playerId \<and> roomId \<noteq> [] \<and> playerId \<noteq> [])"
  by (auto simp add: bound_def split: option.splits)

lemma room_leave_unbound: "\<not> bound sock \<Longrightarrow> room_leave rs sock = (rs, sock, [])"
  by (auto simp add: bound_def room_leave_def split: option.splits)

lemma disconnect_unbound: "\<not> bound sock \<Longrightarrow> disconnect rs sock = (rs, sock, [])"
  by (auto simp add: bound_def disconnect_def split: option.splits)

lemma listPlayers_cases:
  "listPlayers rs roomId =
     (case rs roomId of None \<Rightarrow> Inl ROOM_NOT_FOUND | Some room \<Rightarrow> Inr (room, players room))"
  by (simp add: listPlayers_def getRoom_def)

lemma room_leave_bound:
  assumes "data_roomId (sock_data sock) = Some roomId"
    and "data_playerId (sock_data sock) = Some playerId"
    and "roomId \<noteq> []" and "playerId \<noteq> []"
  shows "room_leave rs sock =
           (fst (removePlayer rs roomId playerId),
            sock\<lparr>sock_groups := sock_groups sock - {roomId},
                 sock_data := \<lparr>data_roomId = None, data_playerId = None\<rparr>\<rparr>,
            snapshot (fst (removePlayer rs roomId playerId)) roomId @ [ToSocket (RoomLeft roomId)])"
  using assms
  by (simp add: room_leave_def listPlayers_cases snapshot_def Let_def split: option.splits)

lemma disconnect_bound:
  assumes "data_roomId (sock_data sock) = Some roomId"
    and "data_playerId (sock_data sock) = Some playerId"
    and "roomId \<noteq> []" and "playerId \<noteq> []"
  shows "disconnect rs sock =
           (fst (removePlayer rs roomId playerId), sock,
            snapshot (fst (removePlayer rs roomId playerId)) roomId)"
  using assms
  by (simp add: disconnect_def listPlayers_cases snapshot_def Let_def split: option.splits)

lemma snapshot_member:
  "ToGroup g m \<in> set (snapshot rs roomId) \<longleftrightarrow>
     g = roomId \<and> (\<exists>room. rs roomId = Some room \<and> m = RoomPlayers roomId (Some (players room)))"
  by (cases "rs roomId") (auto simp add: snapshot_def)

lemma snapshot_private: "ToSocket m \<notin> set (snapshot rs roomId)"
  by (simp add: snapshot_def split: option.splits)

lemma removePlayer_other_room:
  "r \<noteq> roomId \<Longrightarrow> fst (removePlayer rs roomId playerId) r = rs r"
  by (simp add: removePlayer_fst split: option.splits)

lemma trim_Nil: "trim [] = []"
  by (simp add: trim_def)

lemma room_join_admits:
  assumes "payload_roomId q = JString roomId" and "payload_playerName q = JString name"
    and "roomId \<noteq> []" and "2 \<le> length (trim name)"
    and "rs roomId = Some room"
    and "lc (trim name) \<notin> (\<lambda>p. lc (player_name p)) ` set (players room)"
  shows "room_join lc rs sock (Some q) uuid now =
           (rs(roomId \<mapsto> room\<lparr>players := players room @
                 [\<lparr>player_id = uuid, player_name = trim name, joinedAt = now\<rparr>]\<rparr>),
            sock\<lparr>sock_groups := insert roomId (sock_groups sock),
                 sock_data := \<lparr>data_roomId = Some roomId, data_playerId = Some uuid\<rparr>\<rparr>,
            [ToSocket (RoomJoined roomId \<lparr>player_id = uuid, player_name = trim name, joinedAt = now\<rparr>),
             ToGroup roomId (RoomPlayers roomId (Some (players room @
                 [\<lparr>player_id = uuid, player_name = trim name, joinedAt = now\<rparr>])))])"
proof -
  from assms(4) have "name \<noteq> []"
    by (auto simp add: trim_Nil)
  with assms show ?thesis
    by (simp add: room_join_def addPlayer_cases listPlayers_cases Let_def)
qed

lemma snapshot_removePlayer:
  assumes "rs roomId = Some room"
  shows "fst (removePlayer rs roomId playerId) roomId =
           Some (room\<lparr>players := filter (\<lambda>p. player_id p \<noteq> playerId) (players room)\<rparr>)"
    and "snapshot (fst (removePlayer rs roomId playerId)) roomId =
           [ToGroup roomId (RoomPlayers roomId
              (Some (filter (\<lambda>p. player_id p \<noteq> playerId) (players room))))]"
  using assms by (simp_all add: removePlayer_fst snapshot_def)

lemma broadcasts_are_current:
  assumes "gateway_step lc rs sock ev = (rs', sock', out)"
  shows "(\<forall>g m. ToGroup g m \<in> set out \<longrightarrow>
            (\<exists>room'. rs' g = Some room' \<and> m = RoomPlayers g (Some (players room')))) \<and>
         (\<forall>roomId player. ToSocket (RoomJoined roomId player) \<in> set out \<longrightarrow>
            (\<exists>room room'. rs roomId = Some room \<and> rs' roomId = Some room' \<and>
               players room' = players room @ [player] \<and>
               ToGroup roomId (RoomPlayers roomId (Some (players room'))) \<in> set out)) \<and>
         (\<forall>roomId room'. ToSocket (RoomLeft roomId) \<in> set out \<and> rs' roomId = Some room' \<longrightarrow>
            ToGroup roomId (RoomPlayers roomId (Some (players room'))) \<in> set out)"
proof (cases ev)
  case (Join payload uuid now)
  with assms have join: "room_join lc rs sock payload uuid now = (rs', sock', out)"
    by simp
  have no_left: "ToSocket (RoomLeft roomId) \<notin> set out" for roomId
    using join
    by (auto simp add: room_join_def Let_def
        split: option.splits jsval.splits if_splits prod.splits sum.splits store_error.splits)
  have joined: "\<exists>roomId player. ToSocket (RoomJoined roomId player) \<in> set out" if "ToGroup g m \<in> set out" for g m
    using join that
    by (auto simp add: room_join_def Let_def
        split: option.splits jsval.splits if_splits prod.splits sum.splits store_error.splits)
  show ?thesis
  proof (intro conjI allI impI)
    fix g m
    assume "ToGroup g m \<in> set out"
    with joined obtain roomId player where "ToSocket (RoomJoined roomId player) \<in> set out"
      by blast
    from room_join_joined [OF join this] \<open>ToGroup g m \<in> set out\<close>
    show "\<exists>room'. rs' g = Some room' \<and> m = RoomPlayers g (Some (players room'))"
      by auto
  next
    fix roomId player
    assume "ToSocket (RoomJoined roomId player) \<in> set out"
    from room_join_joined [OF join this]
    show "\<exists>room room'. rs roomId = Some room \<and> rs' roomId = Some room' \<and>
               players room' = players room @ [player] \<and>
               ToGroup roomId (RoomPlayers roomId (Some (players room'))) \<in> set out"
      by auto
  next
    fix roomId room'
    assume "ToSocket (RoomLeft roomId) \<in> set out \<and> rs' roomId = Some room'"
    with no_left show "ToGroup roomId (RoomPlayers roomId (Some (players room'))) \<in> set out"
      by blast
  qed
next
  case Leave
  with assms have leave: "room_leave rs sock = (rs', sock', out)"
    by simp
  show ?thesis
  proof (cases "bound sock")
    case False
    with leave show ?thesis
      by (simp add: room_leave_unbound)
  next
    case True
    then obtain roomId playerId where b: "data_roomId (sock_data sock) = Some roomId"
      "data_playerId (sock_data sock) = Some playerId" "roomId \<noteq> []" "playerId \<noteq> []"
      unfolding bound_iff by blast
    from leave have rs': "rs' = fst (removePlayer rs roomId playerId)"
      and out: "out = snapshot rs' roomId @ [ToSocket (RoomLeft roomId)]"
      by (auto simp add: room_leave_bound [OF b])
    show ?thesis
      unfolding out by (auto simp add: snapshot_member snapshot_private)
  qed
next
  case Disconnect
  with assms have disc: "disconnect rs sock = (rs', sock', out)"
    by simp
  show ?thesis
  proof (cases "bound sock")
    case False
    with disc show ?thesis
      by (simp add: disconnect_unbound)
  next
    case True
    then obtain roomId playerId where b: "data_roomId (sock_data sock) = Some roomId"
      "data_playerId (sock_data sock) = Some playerId" "roomId \<noteq> []" "playerId \<noteq> []"
      unfolding bound_iff by blast
    from disc have rs': "rs' = fst (removePlayer rs roomId playerId)"
      and out: "out = snapshot rs' roomId"
      by (auto simp add: disconnect_bound [OF b])
    show ?thesis
      unfolding out by (auto simp add: snapshot_member snapshot_private)
  qed
qed

text \<open>
  C5. After a successful join (a well-formed payload, the room exists and the name is
  free) the handler sends \<open>room:joined\<close> and then, to the room's group, \<open>room:players\<close>
  with the room's member sequence as it is now: the previous one followed by the new
  player. After a leave or a disconnect of a bound connection whose room exists, the
  handler sends to the room's group \<open>room:players\<close> with the sequence as it is now: the
  previous one without the players of the bound id. And whatever event is processed,
  every \<open>room:players\<close> message sent to a group carries exactly the member sequence the
  group's room has in the registry when the handler is done.
\<close>

theorem C5_broadcast_is_current_members:
  assumes "gateway_step lc rs sock ev = (rs', sock', out)"
  shows "(\<forall>q roomId name room uuid now.
            ev = Join (Some q) uuid now \<and> payload_roomId q = JString roomId \<and>
            payload_playerName q = JString name \<and> roomId \<noteq> [] \<and> 2 \<le> length (trim name) \<and>
            rs roomId = Some room \<and>
            lc (trim name) \<notin> (\<lambda>p. lc (player_name p)) ` set (players room) \<longrightarrow>
              rs' roomId = Some (room\<lparr>players := players room @
                  [\<lparr>player_id = uuid, player_name = trim name, joinedAt = now\<rparr>]\<rparr>) \<and>
              out = [ToSocket (RoomJoined roomId
                       \<lparr>player_id = uuid, player_name = trim name, joinedAt = now\<rparr>),
                     ToGroup roomId (RoomPlayers roomId (Some (players room @
                       [\<lparr>player_id = uuid, player_name = trim name, joinedAt = now\<rparr>])))]) \<and>
         (\<forall>roomId playerId room.
            ev = Leave \<and> data_roomId (sock_data sock) = Some roomId \<and>
            data_playerId (sock_data sock) = Some playerId \<and> roomId \<noteq> [] \<and> playerId \<noteq> [] \<and>
            rs roomId = Some room \<longrightarrow>
              rs' roomId = Some (room\<lparr>players :=
                  filter (\<lambda>p. player_id p \<noteq> playerId) (players room)\<rparr>) \<and>
              out = [ToGroup roomId (RoomPlayers roomId
                       (Some (filter (\<lambda>p. player_id p \<noteq> playerId) (players room)))),
                     ToSocket (RoomLeft roomId)]) \<and>
         (\<forall>roomId playerId room.
            ev = Disconnect \<and> data_roomId (sock_data sock) = Some roomId \<and>
            data_playerId (sock_data sock) = Some playerId \<and> roomId \<noteq> [] \<and> playerId \<noteq> [] \<and>
            rs roomId = Some room \<longrightarrow>
              rs' roomId = Some (room\<lparr>players :=
                  filter (\<lambda>p. player_id p \<noteq> playerId) (players room)\<rparr>) \<and>
              out = [ToGroup roomId (RoomPlayers roomId
                       (Some (filter (\<lambda>p. player_id p \<noteq> playerId) (players room))))]) \<and>
         (\<forall>g m. ToGroup g m \<in> set out \<longrightarrow>
            (\<exists>room'. rs' g = Some room' \<and> m = RoomPlayers g (Some (players room')))) \<and>
         (\<forall>roomId player. ToSocket (RoomJoined roomId player) \<in> set out \<longrightarrow>
            (\<exists>room room'. rs roomId = Some room \<and> rs' roomId = Some room' \<and>
               players room' = players room @ [player] \<and>
               ToGroup roomId (RoomPlayers roomId (Some (players room'))) \<in> set out)) \<and>
         (\<forall>roomId room'. ToSocket (RoomLeft roomId) \<in> set out \<and> rs' roomId = Some room' \<longrightarrow>
            ToGroup roomId (RoomPlayers roomId (Some (players room'))) \<in> set out)"
proof -
  have join: "rs' roomId = Some (room\<lparr>players := players room @
                  [\<lparr>player_id = uuid, player_name = trim name, joinedAt = now\<rparr>]\<rparr>) \<and>
              out = [ToSocket (RoomJoined roomId
                       \<lparr>player_id = uuid, player_name = trim name, joinedAt = now\<rparr>),
                     ToGroup roomId (RoomPlayers roomId (Some (players room @
                       [\<lparr>player_id = uuid, player_name = trim name, joinedAt = now\<rparr>])))]"
    if "ev = Join (Some q) uuid now \<and> payload_roomId q = JString roomId \<and>
        payload_playerName q = JString name \<and> roomId \<noteq> [] \<and> 2 \<le> length (trim name) \<and>
        rs roomId = Some room \<and>
        lc (trim name) \<notin> (\<lambda>p. lc (player_name p)) ` set (players room)"
    for q roomId name room uuid now
  proof -
    from that have "room_join lc rs sock (Some q) uuid now = (rs', sock', out)"
      using assms by simp
    moreover from that have "payload_roomId q = JString roomId" "payload_playerName q = JString name"
      "roomId \<noteq> []" "2 \<le> length (trim name)" "rs roomId = Some room"
      "lc (trim name) \<notin> (\<lambda>p. lc (player_name p)) ` set (players room)"
      by simp_all
    ultimately show ?thesis
      by (auto simp add: room_join_admits)
  qed
  have leave: "rs' roomId = Some (room\<lparr>players :=
                  filter (\<lambda>p. player_id p \<noteq> playerId) (players room)\<rparr>) \<and>
              out = [ToGroup roomId (RoomPlayers roomId
                       (Some (filter (\<lambda>p. player_id p \<noteq> playerId) (players room)))),
                     ToSocket (RoomLeft roomId)]"
    if "ev = Leave \<and> data_roomId (sock_data sock) = Some roomId \<and>
        data_playerId (sock_data sock) = Some playerId \<and> roomId \<noteq> [] \<and> playerId \<noteq> [] \<and>
        rs roomId = Some room"
    for roomId playerId room
  proof -
    from that have b: "data_roomId (sock_data sock) = Some roomId"
      "data_playerId (sock_data sock) = Some playerId" "roomId \<noteq> []" "playerId \<noteq> []"
      and room: "rs roomId = Some room"
      by simp_all
    from that assms have "room_leave rs sock = (rs', sock', out)"
      by simp
    then show ?thesis
      using snapshot_removePlayer [where rs = rs and roomId = roomId and playerId = playerId, OF room]
      by (auto simp add: room_leave_bound [OF b])
  qed
  have disc: "rs' roomId = Some (room\<lparr>players :=
                  filter (\<lambda>p. player_id p \<noteq> playerId) (players room)\<rparr>) \<and>
              out = [ToGroup roomId (RoomPlayers roomId
                       (Some (filter (\<lambda>p. player_id p \<noteq> playerId) (players room))))]"
    if "ev = Disconnect \<and> data_roomId (sock_data sock) = Some roomId \<and>
        data_playerId (sock_data sock) = Some playerId \<and> roomId \<noteq> [] \<and> playerId \<noteq> [] \<and>
        rs roomId = Some room"
    for roomId playerId room
  proof -
    from that have b: "data_roomId (sock_data sock) = Some roomId"
      "data_playerId (sock_data sock) = Some playerId" "roomId \<noteq> []" "playerId \<noteq> []"
      and room: "rs roomId = Some room"
      by simp_all
    from that assms have "disconnect rs sock = (rs', sock', out)"
      by simp
    then show ?thesis
      using snapshot_removePlayer [where rs = rs and roomId = roomId and playerId = playerId, OF room]
      by (auto simp add: disconnect_bound [OF b])
  qed
  from join leave disc broadcasts_are_current [OF assms] show ?thesis
    by blast
qed

theorem C5_broadcast_is_current_members_witness:
  "payload_roomId \<lparr>payload_roomId = JString table_a, payload_playerName = JString (js ''Alice'')\<rparr> =
     JString table_a \<and>
   table_a \<noteq> [] \<and> 2 \<le> length (trim (js ''Alice'')) \<and>
   two_tables table_a = Some (table_a_room []) \<and>
   asciiLowerCase (trim (js ''Alice'')) \<notin>
     (\<lambda>p. asciiLowerCase (player_name p)) ` set (players (table_a_room [])) \<and>
   fst first_join table_a = Some (table_a_room [alice]) \<and>
   snd (snd first_join) =
     [ToSocket (RoomJoined table_a alice), ToGroup table_a (RoomPlayers table_a (Some [alice]))] \<and>
   data_roomId (sock_data (fst (snd first_join))) = Some table_a \<and>
   data_playerId (sock_data (fst (snd first_join))) = Some (js ''p1'') \<and>
   fst after_leave table_a = Some (table_a_room []) \<and>
   snd (snd after_leave) =
     [ToGroup table_a (RoomPlayers table_a (Some [])), ToSocket (RoomLeft table_a)]"
proof -
  have join: "gateway_step asciiLowerCase two_tables idle_socket
     (Join (Some \<lparr>payload_roomId = JString table_a, payload_playerName = JString (js ''Alice'')\<rparr>)
        (js ''p1'') (js ''t1'')) =
     (fst first_join, fst (snd first_join), snd (snd first_join))"
    by (simp add: first_join_def join_as_def)
  have room_id: "table_a \<noteq> []"
    by (simp add: table_a_def js_def)
  have name: "trim (js ''Alice'') = js ''Alice''"
    by (simp add: eval_defs)
  have long: "2 \<le> length (trim (js ''Alice''))"
    by (simp add: eval_defs)
  have room: "two_tables table_a = Some (table_a_room [])"
    by (simp add: two_tables_eq tables_differ)
  have free: "asciiLowerCase (trim (js ''Alice'')) \<notin>
     (\<lambda>p. asciiLowerCase (player_name p)) ` set (players (table_a_room []))"
    by (simp add: table_a_room_def)
  from C5_broadcast_is_current_members [OF join] room_id long room free
  have "fst first_join table_a = Some (table_a_room [] \<lparr>players := players (table_a_room []) @
          [\<lparr>player_id = js ''p1'', player_name = trim (js ''Alice''), joinedAt = js ''t1''\<rparr>]\<rparr>) \<and>
        snd (snd first_join) =
          [ToSocket (RoomJoined table_a
             \<lparr>player_id = js ''p1'', player_name = trim (js ''Alice''), joinedAt = js ''t1''\<rparr>),
           ToGroup table_a (RoomPlayers table_a (Some (players (table_a_room []) @
             [\<lparr>player_id = js ''p1'', player_name = trim (js ''Alice''), joinedAt = js ''t1''\<rparr>])))]"
    by simp
  then have joined: "fst first_join table_a = Some (table_a_room [alice])"
    and sent: "snd (snd first_join) =
     [ToSocket (RoomJoined table_a alice), ToGroup table_a (RoomPlayers table_a (Some [alice]))]"
    by (simp_all add: name table_a_room_def alice_def)
  have leave: "gateway_step asciiLowerCase (fst first_join) (fst (snd first_join)) Leave =
     (fst after_leave, fst (snd after_leave), snd (snd after_leave))"
    by (simp add: after_leave_def)
  have r: "data_roomId (sock_data (fst (snd first_join))) = Some table_a"
    and p: "data_playerId (sock_data (fst (snd first_join))) = Some (js ''p1'')"
    by (simp_all add: first_join_eq)
  have player_id: "js ''p1'' \<noteq> []"
    by (simp add: js_def)
  from C5_broadcast_is_current_members [OF leave] r p room_id player_id joined
  have "fst after_leave table_a = Some (table_a_room [alice] \<lparr>players :=
          filter (\<lambda>p. player_id p \<noteq> js ''p1'') (players (table_a_room [alice]))\<rparr>) \<and>
        snd (snd after_leave) =
          [ToGroup table_a (RoomPlayers table_a
             (Some (filter (\<lambda>p. player_id p \<noteq> js ''p1'') (players (table_a_room [alice]))))),
           ToSocket (RoomLeft table_a)]"
    by simp
  then have left: "fst after_leave table_a = Some (table_a_room [])"
    and sent': "snd (snd after_leave) =
     [ToGroup table_a (RoomPlayers table_a (Some [])), ToSocket (RoomLeft table_a)]"
    by (simp_all add: table_a_room_def alice_def)
  from room_id long room free joined sent r p left sent' show ?thesis
    by simp
qed

text \<open>
  C6. For a connection that holds a binding, the disconnect handler leaves the registry
  exactly as the \<open>room:leave\<close> handler would, and sends the same messages except the
  private \<open>room:left\<close>, which \<open>room:leave\<close> sends last: disconnect sends nothing to the
  closing connection.
\<close>

theorem C6_disconnect_like_leave:
  assumes "bound sock" and "data_roomId (sock_data sock) = Some roomId"
  shows "fst (disconnect rs sock) = fst (room_leave rs sock) \<and>
         snd (snd (room_leave rs sock)) = snd (snd (disconnect rs sock)) @ [ToSocket (RoomLeft roomId)] \<and>
         (\<forall>m. ToSocket m \<notin> set (snd (snd (disconnect rs sock))))"
proof -
  from assms obtain playerId where b: "data_roomId (sock_data sock) = Some roomId"
    "data_playerId (sock_data sock) = Some playerId" "roomId \<noteq> []" "playerId \<noteq> []"
    unfolding bound_iff by auto
  show ?thesis
    by (simp add: room_leave_bound [OF b] disconnect_bound [OF b] snapshot_private)
qed

theorem C6_disconnect_like_leave_witness:
  "bound (fst (snd first_join)) \<and>
   data_roomId (sock_data (fst (snd first_join))) = Some table_a \<and>
   fst (disconnect (fst first_join) (fst (snd first_join))) = fst after_leave \<and>
   map_option players (fst after_leave table_a) = Some [] \<and>
   snd (snd (disconnect (fst first_join) (fst (snd first_join)))) =
     [ToGroup table_a (RoomPlayers table_a (Some []))] \<and>
   snd (snd after_leave) =
     [ToGroup table_a (RoomPlayers table_a (Some [])), ToSocket (RoomLeft table_a)]"
proof -
  have b: "bound (fst (snd first_join))"
    by (simp add: first_join_eq bound_iff) (simp add: table_a_def js_def)
  have r: "data_roomId (sock_data (fst (snd first_join))) = Some table_a"
    by (simp add: first_join_eq)
  have out: "snd (snd after_leave) =
     [ToGroup table_a (RoomPlayers table_a (Some [])), ToSocket (RoomLeft table_a)]"
    by (simp add: after_leave_eq)
  have members: "map_option players (fst after_leave table_a) = Some []"
    by (simp add: after_leave_eq table_a_room_def)
  from C6_disconnect_like_leave [OF b r, of "fst first_join"]
  have "fst (disconnect (fst first_join) (fst (snd first_join))) = fst after_leave"
    and "snd (snd after_leave) =
      snd (snd (disconnect (fst first_join) (fst (snd first_join)))) @ [ToSocket (RoomLeft table_a)]"
    by (simp_all add: after_leave_def)
  with b r out members show ?thesis
    by simp
qed

text \<open>
  C10. The \<open>room:leave\<close> handler sends the private \<open>room:left\<close> exactly when the
  connection holds a binding, and it names the bound room. When that room is no longer
  in the registry, \<open>removePlayer\<close> returns false, no broadcast is sent and \<open>room:left\<close>
  is the only message; without a binding nothing is sent and nothing changes.
\<close>

theorem C10_room_left_iff_bound:
  "(ToSocket (RoomLeft roomId) \<in> set (snd (snd (room_leave rs sock))) \<longleftrightarrow>
      bound sock \<and> data_roomId (sock_data sock) = Some roomId) \<and>
   (bound sock \<and> data_roomId (sock_data sock) = Some roomId \<and>
    data_playerId (sock_data sock) = Some playerId \<and> rs roomId = None \<longrightarrow>
      \<not> snd (removePlayer rs roomId playerId) \<and>
      fst (room_leave rs sock) = rs \<and>
      snd (snd (room_leave rs sock)) = [ToSocket (RoomLeft roomId)]) \<and>
   (\<not> bound sock \<longrightarrow> room_leave rs sock = (rs, sock, []))"
proof -
  have sent: "ToSocket (RoomLeft roomId) \<in> set (snd (snd (room_leave rs sock))) \<longleftrightarrow>
      bound sock \<and> data_roomId (sock_data sock) = Some roomId"
  proof (cases "bound sock")
    case False
    then show ?thesis
      by (simp add: room_leave_unbound)
  next
    case True
    then obtain r p where b: "data_roomId (sock_data sock) = Some r"
      "data_playerId (sock_data sock) = Some p" "r \<noteq> []" "p \<noteq> []"
      unfolding bound_iff by blast
    with True show ?thesis
      by (auto simp add: room_leave_bound [OF b] snapshot_private)
  qed
  have gone: "\<not> snd (removePlayer rs roomId playerId) \<and>
      fst (room_leave rs sock) = rs \<and>
      snd (snd (room_leave rs sock)) = [ToSocket (RoomLeft roomId)]"
    if a: "bound sock \<and> data_roomId (sock_data sock) = Some roomId \<and>
      data_playerId (sock_data sock) = Some playerId \<and> rs roomId = None"
  proof -
    from a have b: "data_roomId (sock_data sock) = Some roomId"
      "data_playerId (sock_data sock) = Some playerId" "roomId \<noteq> []" "playerId \<noteq> []"
      unfolding bound_iff by auto
    from a have "removePlayer rs roomId playerId = (rs, False)"
      by (simp add: removePlayer_unknown_room)
    with a show ?thesis
      by (simp add: room_leave_bound [OF b] snapshot_def)
  qed
  have idle: "room_leave rs sock = (rs, sock, [])" if "\<not> bound sock"
    using that by (rule room_leave_unbound)
  from sent gone idle show ?thesis
    by blast
qed

theorem C10_room_left_iff_bound_witness:
  "bound (fst (snd first_join)) \<and> table_a_deleted table_a = None \<and>
   snd (snd leave_deleted) = [ToSocket (RoomLeft table_a)] \<and>
   \<not> snd (removePlayer table_a_deleted table_a (js ''p1'')) \<and>
   \<not> bound idle_socket \<and>
   room_leave two_tables idle_socket = (two_tables, idle_socket, [])"
proof -
  have b: "bound (fst (snd first_join))"
    by (simp add: first_join_eq bound_iff) (simp add: table_a_def js_def)
  have r: "data_roomId (sock_data (fst (snd first_join))) = Some table_a"
    and p: "data_playerId (sock_data (fst (snd first_join))) = Some (js ''p1'')"
    by (simp_all add: first_join_eq)
  have gone: "table_a_deleted table_a = None"
    by (simp add: table_a_deleted_eq tables_differ)
  from C10_room_left_iff_bound [of table_a table_a_deleted "fst (snd first_join)" "js ''p1''"] b r p gone
  have deleted: "\<not> snd (removePlayer table_a_deleted table_a (js ''p1'')) \<and>
      snd (snd leave_deleted) = [ToSocket (RoomLeft table_a)]"
    by (simp add: leave_deleted_def)
  have idle: "\<not> bound idle_socket"
    by (simp add: bound_iff idle_socket_def)
  from C10_room_left_iff_bound [of table_a two_tables idle_socket "js ''p1''"] idle
  have "room_leave two_tables idle_socket = (two_tables, idle_socket, [])"
    by blast
  with b gone deleted idle show ?thesis
    by simp
qed

section \<open>Validation\<close>

text \<open>
  C7 as stated fails on \<open>addPlayer\<close>, which has no validation result:
  joining the existing room ``Table A'' under the one-letter name \<open>a\<close> succeeds and adds
  the player.
\<close>

theorem C7_addPlayer_short_name_counterexample:
  "length (trim (js ''a'')) < 2 \<and>
   addPlayer asciiLowerCase table_a_created table_a (js ''a'') (js ''p1'') (js ''t1'') =
     ([table_a \<mapsto> table_a_room [\<lparr>player_id = js ''p1'', player_name = js ''a'', joinedAt = js ''t1''\<rparr>]],
      Inr (table_a_room [\<lparr>player_id = js ''p1'', player_name = js ''a'', joinedAt = js ''t1''\<rparr>],
           \<lparr>player_id = js ''p1'', player_name = js ''a'', joinedAt = js ''t1''\<rparr>))"
  unfolding table_a_created_eq by (simp add: eval_defs)

text \<open>
  C7, amended. The check is made by the callers of \<open>addPlayer\<close>: for every room id and
  every name whose trimmed length is less than 2, the \<open>room:join\<close> handler answers with
  one private \<open>Bad Request\<close> error and \<open>POST /rooms/:id/join\<close> with status 400; neither
  calls \<open>addPlayer\<close> (nothing is looked up or scanned), and the registry and the
  connection are unchanged.
\<close>

theorem C7_short_name_rejected_by_callers:
  assumes "length (trim rawName) < 2"
  shows "(\<exists>details. room_join lc rs sock
             (Some \<lparr>payload_roomId = roomIdValue, payload_playerName = JString rawName\<rparr>) uuid now =
             (rs, sock, [ToSocket (ErrorMsg ''Bad Request'' (Some details))])) \<and>
         post_rooms_join lc rs ident (Some \<lparr>body_playerName = JString rawName\<rparr>) uuid now =
           (rs, (400, ErrorBody ''Bad Request''
                        (Some ''Field 'playerName' is required (string, min 2 chars).'')))"
  using assms
  by (simp add: room_join_def post_rooms_join_def Let_def split: jsval.splits)

theorem C7_short_name_rejected_by_callers_witness:
  "length (trim (js '' a '')) < 2 \<and>
   room_join asciiLowerCase table_a_created idle_socket (join_as table_a (js '' a '')) (js ''p1'') (js ''t1'') =
     (table_a_created, idle_socket,
      [ToSocket (ErrorMsg ''Bad Request'' (Some ''playerName required (min 2 chars)''))]) \<and>
   post_rooms_join asciiLowerCase table_a_created table_a (Some \<lparr>body_playerName = JString (js '' a '')\<rparr>)
       (js ''p1'') (js ''t1'') =
     (table_a_created, (400, ErrorBody ''Bad Request''
                        (Some ''Field 'playerName' is required (string, min 2 chars).'')))"
proof -
  have short: "length (trim (js '' a '')) < 2"
    by (simp add: eval_defs)
  have room: "JString table_a \<noteq> JString []"
    by (simp add: table_a_def js_def)
  from C7_short_name_rejected_by_callers [OF short, of asciiLowerCase table_a_created idle_socket
      "JString table_a" "js ''p1''" "js ''t1''" table_a]
  obtain details where
    "room_join asciiLowerCase table_a_created idle_socket (join_as table_a (js '' a '')) (js ''p1'') (js ''t1'') =
       (table_a_created, idle_socket, [ToSocket (ErrorMsg ''Bad Request'' (Some details))])"
    and http: "post_rooms_join asciiLowerCase table_a_created table_a
       (Some \<lparr>body_playerName = JString (js '' a '')\<rparr>) (js ''p1'') (js ''t1'') =
     (table_a_created, (400, ErrorBody ''Bad Request''
                        (Some ''Field 'playerName' is required (string, min 2 chars).'')))"
    by (auto simp add: join_as_def)
  moreover have "room_join asciiLowerCase table_a_created idle_socket (join_as table_a (js '' a ''))
      (js ''p1'') (js ''t1'') =
     (table_a_created, idle_socket,
      [ToSocket (ErrorMsg ''Bad Request'' (Some ''playerName required (min 2 chars)''))])"
    using short room by (simp add: room_join_def join_as_def Let_def)
  ultimately show ?thesis
    using short by simp
qed

text \<open>
  C8 as stated fails on \<open>createRoom\<close>, which accepts every name: a name of
  blanks only creates a room whose name is the empty string.
\<close>

theorem C8_createRoom_blank_name_counterexample:
  "trim (js ''  '') = [] \<and>
   createRoom Map.empty (js ''  '') (js ''room-1'') (js ''t0'') =
     ([js ''room-1'' \<mapsto>
         \<lparr>room_id = js ''room-1'', room_name = [], players = [], createdAt = js ''t0''\<rparr>],
      \<lparr>room_id = js ''room-1'', room_name = [], players = [], createdAt = js ''t0''\<rparr>)"
  by (simp add: eval_defs)

text \<open>
  C8, amended. The check is made by the route \<open>POST /rooms\<close>, the caller of
  \<open>createRoom\<close>: a name whose trimmed length is less than 2, so every name that is empty
  after trimming, is answered with status 400 \<open>Bad Request\<close> and the registry is
  unchanged.
\<close>

theorem C8_post_rooms_rejects_blank_name:
  assumes "length (trim name) < 2"
  shows "post_rooms rs (Some \<lparr>body_name = JString name\<rparr>) uuid now =
           (rs, (400, ErrorBody ''Bad Request''
                        (Some ''Field 'name' is required (string, min 2 chars).'')))"
  using assms by (simp add: post_rooms_def Let_def)

theorem C8_post_rooms_rejects_blank_name_witness:
  "trim (js ''  '') = [] \<and>
   post_rooms table_a_created (Some \<lparr>body_name = JString (js ''  '')\<rparr>) (js ''room-2'') (js ''t1'') =
     (table_a_created, (400, ErrorBody ''Bad Request''
                        (Some ''Field 'name' is required (string, min 2 chars).'')))"
proof -
  have blank: "trim (js ''  '') = []"
    by (simp add: eval_defs)
  then have "length (trim (js ''  '')) < 2"
    by simp
  from C8_post_rooms_rejects_blank_name [OF this] blank show ?thesis
    by simp
qed

section \<open>A second join on a bound connection\<close>

text \<open>
  C9 as stated fails: the connection joined ``Table A'' as Alice (player
  \<open>p1\<close>), then joined ``Table B'' successfully, then disconnected. The disconnect
  removed the player of ``Table B''; Alice is still a member of ``Table A''.
\<close>

theorem C9_stale_member_survives_disconnect_counterexample:
  "sock_data (fst (snd first_join)) = \<lparr>data_roomId = Some table_a, data_playerId = Some (player_id alice)\<rparr> \<and>
   snd (snd second_join) =
     [ToSocket (RoomJoined table_b alice_b), ToGroup table_b (RoomPlayers table_b (Some [alice_b]))] \<and>
   fst second_join table_a = Some (table_a_room [alice]) \<and>
   fst after_disconnect table_a = Some (table_a_room [alice]) \<and>
   fst after_disconnect table_b = Some (table_b_room [])"
  by (simp add: second_join_eq after_disconnect_eq first_join_eq tables_differ alice_def)

text \<open>
  C9, amended. If a connection bound to a member of one room sends a \<open>room:join\<close> for a
  different room and the join succeeds, the old membership is not removed and the
  connection's binding is replaced by the new room and player, so no binding refers to
  the stale member any more. Whenever the connection disconnects while it still holds
  that binding, whatever the registry has become by then, the disconnect is a
  \<open>removePlayer\<close> of the new player in the new room: every other room, the old one
  included, stays exactly as it is at that moment, so the disconnect does not remove the
  stale member.
\<close>

theorem C9_second_join_orphans_old_membership:
  assumes "data_roomId (sock_data sock) = Some oldRoom"
    and "data_playerId (sock_data sock) = Some (player_id stale)"
    and "rs oldRoom = Some room" and "stale \<in> set (players room)"
    and "room_join lc rs sock payload uuid now = (rs1, sock1, out1)"
    and "ToSocket (RoomJoined newRoom player) \<in> set out1"
    and "newRoom \<noteq> oldRoom" and "uuid \<noteq> []"
    and "sock_data sock2 = sock_data sock1"
    and "disconnect rs2 sock2 = (rs3, sock3, out3)"
  shows "rs1 oldRoom = Some room \<and>
         (\<exists>room1. rs1 newRoom = Some room1 \<and> player \<in> set (players room1)) \<and>
         sock_data sock1 = \<lparr>data_roomId = Some newRoom, data_playerId = Some (player_id player)\<rparr> \<and>
         rs3 = fst (removePlayer rs2 newRoom (player_id player)) \<and>
         (\<forall>r. r \<noteq> newRoom \<longrightarrow> rs3 r = rs2 r) \<and>
         rs3 oldRoom = rs2 oldRoom \<and>
         (\<forall>room2. rs2 oldRoom = Some room2 \<and> stale \<in> set (players room2) \<longrightarrow>
            (\<exists>room3. rs3 oldRoom = Some room3 \<and> stale \<in> set (players room3))) \<and>
         (\<forall>room2. rs2 newRoom = Some room2 \<longrightarrow>
            (\<exists>room3. rs3 newRoom = Some room3 \<and>
               players room3 = filter (\<lambda>p. player_id p \<noteq> player_id player) (players room2) \<and>
               player \<notin> set (players room3))) \<and>
         (rs2 = rs1 \<longrightarrow>
            rs3 oldRoom = Some room \<and>
            (\<exists>room3. rs3 newRoom = Some room3 \<and> player \<notin> set (players room3)))"
proof -
  from room_join_joined [OF assms(5,6)] obtain name newroom where
    newRoom: "newRoom \<noteq> []" and
    player: "player = \<lparr>player_id = uuid, player_name = trim name, joinedAt = now\<rparr>" and
    rs1: "rs1 = rs(newRoom \<mapsto> newroom\<lparr>players := players newroom @ [player]\<rparr>)" and
    sock1: "sock1 = sock\<lparr>sock_groups := insert newRoom (sock_groups sock),
                         sock_data := \<lparr>data_roomId = Some newRoom, data_playerId = Some uuid\<rparr>\<rparr>"
    by blast
  have id: "player_id player = uuid"
    by (simp add: player)
  have b: "data_roomId (sock_data sock2) = Some newRoom" "data_playerId (sock_data sock2) = Some uuid"
    by (simp_all add: assms(9) sock1)
  from assms(10) have rs3: "rs3 = fst (removePlayer rs2 newRoom uuid)"
    by (simp add: disconnect_bound [OF b newRoom assms(8)])
  have old1: "rs1 oldRoom = Some room"
    using assms(3,7) by (simp add: rs1)
  have new1: "\<exists>room1. rs1 newRoom = Some room1 \<and> player \<in> set (players room1)"
    by (simp add: rs1)
  have binding: "sock_data sock1 = \<lparr>data_roomId = Some newRoom, data_playerId = Some (player_id player)\<rparr>"
    by (simp add: sock1 player)
  have others: "\<forall>r. r \<noteq> newRoom \<longrightarrow> rs3 r = rs2 r"
    by (simp add: rs3 removePlayer_other_room)
  with assms(7) have old3: "rs3 oldRoom = rs2 oldRoom"
    by simp
  then have stays: "\<forall>room2. rs2 oldRoom = Some room2 \<and> stale \<in> set (players room2) \<longrightarrow>
            (\<exists>room3. rs3 oldRoom = Some room3 \<and> stale \<in> set (players room3))"
    by simp
  have new3: "\<forall>room2. rs2 newRoom = Some room2 \<longrightarrow>
            (\<exists>room3. rs3 newRoom = Some room3 \<and>
               players room3 = filter (\<lambda>p. player_id p \<noteq> player_id player) (players room2) \<and>
               player \<notin> set (players room3))"
    by (simp add: rs3 removePlayer_fst id)
  have immediate: "rs2 = rs1 \<longrightarrow>
            rs3 oldRoom = Some room \<and>
            (\<exists>room3. rs3 newRoom = Some room3 \<and> player \<notin> set (players room3))"
    using old1 old3 new1 new3 by auto
  from old1 new1 binding rs3 id others old3 stays new3 immediate show ?thesis
    by simp
qed

theorem C9_second_join_orphans_old_membership_witness:
  "data_roomId (sock_data (fst (snd first_join))) = Some table_a \<and>
   data_playerId (sock_data (fst (snd first_join))) = Some (player_id alice) \<and>
   fst first_join table_a = Some (table_a_room [alice]) \<and>
   alice \<in> set (players (table_a_room [alice])) \<and>
   ToSocket (RoomJoined table_b alice_b) \<in> set (snd (snd second_join)) \<and>
   table_b \<noteq> table_a \<and> js ''p2'' \<noteq> [] \<and>
   fst second_join table_a = Some (table_a_room [alice]) \<and>
   bob_joined_later table_a = Some (table_a_room [alice, bob]) \<and>
   fst late_disconnect table_a = Some (table_a_room [alice, bob]) \<and>
   fst late_disconnect = fst (removePlayer bob_joined_later table_b (js ''p2''))"
proof -
  have r: "data_roomId (sock_data (fst (snd first_join))) = Some table_a"
    and p: "data_playerId (sock_data (fst (snd first_join))) = Some (player_id alice)"
    and old: "fst first_join table_a = Some (table_a_room [alice])"
    by (simp_all add: first_join_eq alice_def)
  have member: "alice \<in> set (players (table_a_room [alice]))"
    by (simp add: table_a_room_def)
  have join: "room_join asciiLowerCase (fst first_join) (fst (snd first_join))
      (join_as table_b (js ''Alice'')) (js ''p2'') (js ''t2'') =
      (fst second_join, fst (snd second_join), snd (snd second_join))"
    by (simp add: second_join_def)
  have joined: "ToSocket (RoomJoined table_b alice_b) \<in> set (snd (snd second_join))"
    by (simp add: second_join_eq)
  have differ: "table_b \<noteq> table_a"
    using tables_differ by simp
  have uuid: "js ''p2'' \<noteq> []"
    by (simp add: js_def)
  have same: "sock_data (fst (snd second_join)) = sock_data (fst (snd second_join))"
    by simp
  have disc: "disconnect bob_joined_later (fst (snd second_join)) =
      (fst late_disconnect, fst (snd late_disconnect), snd (snd late_disconnect))"
    by (simp add: late_disconnect_def)
  have later: "bob_joined_later table_a = Some (table_a_room [alice, bob])"
    by (simp add: bob_joined_later_eq tables_differ)
  note orphan =
    C9_second_join_orphans_old_membership [OF r p old member join joined differ uuid same disc]
  from orphan have kept: "fst second_join table_a = Some (table_a_room [alice])"
    by blast
  from orphan have "fst late_disconnect table_a = bob_joined_later table_a"
    by blast
  with later have kept_later: "fst late_disconnect table_a = Some (table_a_room [alice, bob])"
    by simp
  from orphan have "fst late_disconnect = fst (removePlayer bob_joined_later table_b (player_id alice_b))"
    by blast
  then have removal: "fst late_disconnect = fst (removePlayer bob_joined_later table_b (js ''p2''))"
    by (simp add: alice_b_def)
  from r p old member joined differ uuid kept later kept_later removal show ?thesis
    by blast
qed

end
